theory Spec2Isabelle
  imports Main "HOL-Library.Sublist"
begin

section \<open>Water outage service: record normaliser and query filter of server.js\<close>

text \<open>
  The development embeds the helpers \<^verbatim>\<open>stripHtml\<close>, \<^verbatim>\<open>extractReference\<close>,
  \<^verbatim>\<open>formatDate\<close>, \<^verbatim>\<open>normalizeOutage\<close> and the route \<^verbatim>\<open>GET /api/outages\<close> of
  \<^verbatim>\<open>server.js\<close>.

  Conventions of the model:
  \<^item> a JavaScript string is a \<open>string\<close>; one \<open>char\<close> is one UTF-16 code unit below 256
    (the Latin-1 range), which is where the regular expressions, \<^verbatim>\<open>trim\<close> and
    \<^verbatim>\<open>toLowerCase\<close> of the source are modelled;
  \<^item> a value of a raw upstream record is a \<open>jsval\<close>: a value of JSON (a scalar, an
    array or an object), or \<open>JUndefined\<close>, which is what reading a missing key gives;
    numbers are integers (object ids and epoch milliseconds);
  \<^item> a field of a normalised outage holds whatever value the source puts there, so a
    field copied from the raw record is a \<open>jsval\<close>;
  \<^item> a \<^verbatim>\<open>TypeError\<close> raised by the source is the value \<open>Inl (TypeError msg)\<close>;
  \<^item> a query parameter of the request is a \<open>jsval\<close> as well: \<open>JUndefined\<close> when absent, a
    string, or the array or object that the query parser builds from a repeated or
    bracketed parameter;
  \<^item> an exception that leaves the handler of the route (it is raised outside the
    \<^verbatim>\<open>try\<close> block) is the value \<open>Inl\<close> in place of a response.
\<close>

subsection \<open>JavaScript values\<close>

datatype jsval =
    JUndefined | JNull | JBool bool | JNum int | JStr string
  | JArr "jsval list" | JObj "(string \<times> jsval) list"

datatype error = TypeError string

fun message :: "error \<Rightarrow> string" where
  "message (TypeError m) = m"

text \<open>Truthiness, as \<^verbatim>\<open>!v\<close>, \<^verbatim>\<open>if (v)\<close> and \<^verbatim>\<open>v || w\<close> test it.\<close>

fun truthy :: "jsval \<Rightarrow> bool" where
  "truthy JUndefined = False"
| "truthy JNull = False"
| "truthy (JBool b) = b"
| "truthy (JNum n) = (n \<noteq> 0)"
| "truthy (JStr s) = (s \<noteq> [])"
| "truthy (JArr vs) = True"
| "truthy (JObj kvs) = True"

text \<open>\<^verbatim>\<open>a || b\<close> for operands that are already values.\<close>

definition js_or :: "jsval \<Rightarrow> jsval \<Rightarrow> jsval" where
  "js_or a b = (if truthy a then a else b)"

text \<open>A raw record: field name to value; reading a missing key gives \<^verbatim>\<open>undefined\<close>.\<close>

type_synonym props = "string \<rightharpoonup> jsval"

definition field :: "props \<Rightarrow> string \<Rightarrow> jsval" where
  "field p k = (case p k of None \<Rightarrow> JUndefined | Some v \<Rightarrow> v)"

subsection \<open>Characters and the string primitives\<close>

definition LF :: char where
  "LF = CHR 0x0A"

text \<open>White space of \<^verbatim>\<open>\s\<close> and of \<^verbatim>\<open>trim\<close>: TAB, LF, VT, FF, CR, SP, NBSP.\<close>

definition isSpace :: "char \<Rightarrow> bool" where
  "isSpace c = (c = CHR 0x09 \<or> c = CHR 0x0A \<or> c = CHR 0x0B \<or> c = CHR 0x0C \<or>
                c = CHR 0x0D \<or> c = CHR 0x20 \<or> c = CHR 0xA0)"

text \<open>The characters that \<^verbatim>\<open>.\<close> does not match.\<close>

definition isLineTerminator :: "char \<Rightarrow> bool" where
  "isLineTerminator c = (c = CHR 0x0A \<or> c = CHR 0x0D)"

definition isUpper :: "char \<Rightarrow> bool" where
  "isUpper c = (let n = (of_char c :: nat) in 65 \<le> n \<and> n \<le> 90)"

definition isLower :: "char \<Rightarrow> bool" where
  "isLower c = (let n = (of_char c :: nat) in 97 \<le> n \<and> n \<le> 122)"

definition isDigit :: "char \<Rightarrow> bool" where
  "isDigit c = (let n = (of_char c :: nat) in 48 \<le> n \<and> n \<le> 57)"

text \<open>The word characters of \<^verbatim>\<open>\b\<close>: letters, digits and the underscore.\<close>

definition isWord :: "char \<Rightarrow> bool" where
  "isWord c = (isUpper c \<or> isLower c \<or> isDigit c \<or> c = CHR ''_'')"

text \<open>\<^verbatim>\<open>toLowerCase\<close>: A-Z and the capital letters of Latin-1 (all of 0xC0-0xDE but the
  multiplication sign 0xD7) move up by 32.\<close>

definition toLowerChar :: "char \<Rightarrow> char" where
  "toLowerChar c =
     (let n = (of_char c :: nat)
      in if (65 \<le> n \<and> n \<le> 90) \<or> (192 \<le> n \<and> n \<le> 222 \<and> n \<noteq> 215)
         then char_of (n + 32) else c)"

definition toLowerCase :: "string \<Rightarrow> string" where
  "toLowerCase s = map toLowerChar s"

definition trim :: "string \<Rightarrow> string" where
  "trim s = rev (dropWhile isSpace (rev (dropWhile isSpace s)))"

text \<open>\<^verbatim>\<open>s.includes(t)\<close>: t occurs in s as a contiguous run.\<close>

fun starts_with :: "string \<Rightarrow> string \<Rightarrow> bool" where
  "starts_with s [] = True"
| "starts_with [] (t # ts) = False"
| "starts_with (c # cs) (t # ts) = (c = t \<and> starts_with cs ts)"

fun js_includes :: "string \<Rightarrow> string \<Rightarrow> bool" where
  "js_includes [] t = (t = [])"
| "js_includes (c # cs) t = (starts_with (c # cs) t \<or> js_includes cs t)"

text \<open>\<^verbatim>\<open>s.split("\n")\<close> and \<^verbatim>\<open>lines.join("\n")\<close>. A character that is not a
  line feed goes in front of the first line of what follows (\<open>push_char\<close>).\<close>

fun push_char :: "char \<Rightarrow> string list \<Rightarrow> string list" where
  "push_char c [] = [[c]]"
| "push_char c (l # ls) = (c # l) # ls"

fun split_lines :: "string \<Rightarrow> string list" where
  "split_lines [] = [[]]"
| "split_lines (c # cs) =
     (if c = LF then [] # split_lines cs
      else push_char c (split_lines cs))"

fun join_lines :: "string list \<Rightarrow> string" where
  "join_lines [] = []"
| "join_lines [l] = l"
| "join_lines (l # ls) = l @ LF # join_lines ls"

subsection \<open>The regular expressions of stripHtml\<close>

text \<open>
  A matcher tries its expression at the head of the input and returns what follows the
  match. \<open>lit_ci p\<close> matches the literal \<open>p\<close> under the \<^verbatim>\<open>i\<close> flag.
\<close>

fun lit_ci :: "string \<Rightarrow> string \<Rightarrow> string option" where
  "lit_ci [] s = Some s"
| "lit_ci (p # ps) [] = None"
| "lit_ci (p # ps) (c # cs) =
     (if toLowerChar c = toLowerChar p then lit_ci ps cs else None)"

text \<open>\<^verbatim>\<open>\/?\<close>\<close>

fun opt_slash :: "string \<Rightarrow> string" where
  "opt_slash [] = []"
| "opt_slash (c # cs) = (if c = CHR ''/'' then cs else c # cs)"

text \<open>\<^verbatim>\<open>/<br\s*\/?>/gi\<close> at the head of the input.\<close>

definition match_br :: "string \<Rightarrow> string option" where
  "match_br s =
     (case lit_ci ''<br'' s of
        None \<Rightarrow> None
      | Some r \<Rightarrow> lit_ci ''>'' (opt_slash (dropWhile isSpace r)))"

text \<open>\<^verbatim>\<open>/<\/div\s*>/gi\<close> at the head of the input.\<close>

definition match_div :: "string \<Rightarrow> string option" where
  "match_div s =
     (case lit_ci ''</div'' s of
        None \<Rightarrow> None
      | Some r \<Rightarrow> lit_ci ''>'' (dropWhile isSpace r))"

text \<open>The rest of \<^verbatim>\<open>/<.*?>/\<close> after its \<^verbatim>\<open><\<close>: lazily to the nearest
  \<^verbatim>\<open>>\<close>, over characters that are not line terminators.\<close>

fun tag_end :: "string \<Rightarrow> string option" where
  "tag_end [] = None"
| "tag_end (c # cs) =
     (if c = CHR ''>'' then Some cs
      else if isLineTerminator c then None
      else tag_end cs)"

text \<open>\<^verbatim>\<open>/<.*?>/g\<close> at the head of the input.\<close>

fun match_tag :: "string \<Rightarrow> string option" where
  "match_tag [] = None"
| "match_tag (c # cs) = (if c = CHR ''<'' then tag_end cs else None)"

lemma lit_ci_length: "lit_ci p s = Some r \<Longrightarrow> length r + length p = length s"
  by (induction p s rule: lit_ci.induct) (auto split: if_splits)

lemma opt_slash_length: "length (opt_slash s) \<le> length s"
  by (cases s) auto

lemma match_br_shorter: "match_br s = Some r \<Longrightarrow> length r < length s"
proof -
  assume m: "match_br s = Some r"
  then obtain r1 where r1: "lit_ci ''<br'' s = Some r1"
    and r: "lit_ci ''>'' (opt_slash (dropWhile isSpace r1)) = Some r"
    by (auto simp: match_br_def split: option.splits)
  have "length r < length (opt_slash (dropWhile isSpace r1))"
    using lit_ci_length [OF r] by simp
  also have "\<dots> \<le> length (dropWhile isSpace r1)"
    by (rule opt_slash_length)
  also have "\<dots> \<le> length r1"
    by (rule length_dropWhile_le)
  also have "\<dots> \<le> length s"
    using lit_ci_length [OF r1] by simp
  finally show ?thesis .
qed

lemma match_div_shorter: "match_div s = Some r \<Longrightarrow> length r < length s"
proof -
  assume m: "match_div s = Some r"
  then obtain r1 where r1: "lit_ci ''</div'' s = Some r1"
    and r: "lit_ci ''>'' (dropWhile isSpace r1) = Some r"
    by (auto simp: match_div_def split: option.splits)
  have "length r < length (dropWhile isSpace r1)"
    using lit_ci_length [OF r] by simp
  also have "\<dots> \<le> length r1"
    by (rule length_dropWhile_le)
  also have "\<dots> \<le> length s"
    using lit_ci_length [OF r1] by simp
  finally show ?thesis .
qed

lemma tag_end_shorter: "tag_end s = Some r \<Longrightarrow> length r < length s"
  by (induction s) (auto split: if_splits)


text \<open>\<^verbatim>\<open>html.replace(/<br\s*\/?>/gi, "\n")\<close>: left to right, each match replaced, the
  scan resuming after the match.\<close>

function replace_br :: "string \<Rightarrow> string" where
  "replace_br [] = []"
| "replace_br (c # cs) =
     (case match_br (c # cs) of
        Some rest \<Rightarrow> LF # replace_br rest
      | None \<Rightarrow> c # replace_br cs)"
  by pat_completeness auto
termination
  by (relation "measure length") (auto dest: match_br_shorter)

text \<open>\<^verbatim>\<open>text.replace(/<\/div\s*>/gi, "\n")\<close>\<close>

function replace_div :: "string \<Rightarrow> string" where
  "replace_div [] = []"
| "replace_div (c # cs) =
     (case match_div (c # cs) of
        Some rest \<Rightarrow> LF # replace_div rest
      | None \<Rightarrow> c # replace_div cs)"
  by pat_completeness auto
termination
  by (relation "measure length") (auto dest: match_div_shorter)

text \<open>\<^verbatim>\<open>text.replace(/<.*?>/g, "")\<close>\<close>

function delete_tags :: "string \<Rightarrow> string" where
  "delete_tags [] = []"
| "delete_tags (c # cs) =
     (case match_tag (c # cs) of
        Some rest \<Rightarrow> delete_tags rest
      | None \<Rightarrow> c # delete_tags cs)"
  by pat_completeness auto
termination
  by (relation "measure length") (auto split: if_splits dest: tag_end_shorter)

subsection \<open>stripHtml\<close>

text \<open>The body of \<^verbatim>\<open>stripHtml\<close> on a string that passed the guard \<^verbatim>\<open>if (!html)\<close>.\<close>

definition strip_text :: "string \<Rightarrow> string" where
  "strip_text html =
     (let text = replace_br html;
          text = replace_div text;
          text = delete_tags text
      in join_lines (filter (\<lambda>l. l \<noteq> []) (map trim (split_lines text))))"

text \<open>\<^verbatim>\<open>stripHtml(html)\<close>: a falsy argument gives the empty string; a truthy argument that
  is not a string has no method \<^verbatim>\<open>replace\<close>, and the call raises.\<close>

fun stripHtml :: "jsval \<Rightarrow> error + string" where
  "stripHtml (JStr s) = (if s = [] then Inr [] else Inr (strip_text s))"
| "stripHtml v =
     (if \<not> truthy v then Inr []
      else Inl (TypeError ''html.replace is not a function''))"

subsection \<open>extractReference\<close>

text \<open>
  \<^verbatim>\<open>\b\<close> between the character before the position (\<open>prev\<close> tells whether it is a
  word character; there is none at the start) and the one at the position.
\<close>

definition word_boundary :: "bool \<Rightarrow> string \<Rightarrow> bool" where
  "word_boundary prev s = (prev \<noteq> (case s of [] \<Rightarrow> False | c # _ \<Rightarrow> isWord c))"

text \<open>\<^verbatim>\<open>/\b[A-Z]{3}\d{8}\b/\<close> at the head of the input.\<close>

definition match_ref :: "bool \<Rightarrow> string \<Rightarrow> string option" where
  "match_ref prev s =
     (if word_boundary prev s \<and> 11 \<le> length s
         \<and> list_all isUpper (take 3 s)
         \<and> list_all isDigit (take 8 (drop 3 s))
         \<and> word_boundary True (drop 11 s)
      then Some (take 11 s) else None)"

text \<open>\<^verbatim>\<open>description.match(...)\<close> without the \<^verbatim>\<open>g\<close> flag: the leftmost match.\<close>

fun first_ref :: "bool \<Rightarrow> string \<Rightarrow> string option" where
  "first_ref prev [] = None"
| "first_ref prev (c # cs) =
     (case match_ref prev (c # cs) of
        Some m \<Rightarrow> Some m
      | None \<Rightarrow> first_ref (isWord c) cs)"

definition extractReference :: "string \<Rightarrow> jsval" where
  "extractReference description =
     (if description = [] then JNull
      else case first_ref False description of
             Some m \<Rightarrow> JStr m
           | None \<Rightarrow> JNull)"

subsection \<open>formatDate\<close>

text \<open>
  Three functions of the JavaScript runtime are parameters of the model:
  \<open>dateParse\<close> is \<^verbatim>\<open>Date.parse\<close> on a string (\<open>None\<close> for NaN), \<open>toLocaleString\<close>
  renders an instant as \<^verbatim>\<open>d.toLocaleString("en-IE", { timeZone: "Europe/Dublin" })\<close>, and
  \<open>numberToString\<close> is the conversion of a number to a string.
\<close>

record runtime =
  dateParse :: "string \<Rightarrow> int option"
  toLocaleString :: "int \<Rightarrow> string"
  numberToString :: "int \<Rightarrow> string"

text \<open>TimeClip: an instant is valid within 8.64e15 ms of the epoch.\<close>

definition timeClip :: "int \<Rightarrow> int option" where
  "timeClip t = (if \<bar>t\<bar> \<le> 8640000000000000 then Some t else None)"

text \<open>The object has an own property of that name.\<close>

definition has_key :: "string \<Rightarrow> (string \<times> jsval) list \<Rightarrow> bool" where
  "has_key k kvs = (k \<in> fst ` set kvs)"

text \<open>
  The conversion of a value to a string, as a template literal, \<^verbatim>\<open>Array.prototype.join\<close>
  and \<^verbatim>\<open>new Date\<close> perform it on a value built from JSON or from a query string.
  Such an object has no callable property of its own. Its conversion first asks
  \<^verbatim>\<open>toString\<close> and \<^verbatim>\<open>valueOf\<close>: an own \<^verbatim>\<open>toString\<close> is not callable and is
  passed over, \<^verbatim>\<open>valueOf\<close> is passed over too or returns the object, and the
  conversion raises; without an own \<^verbatim>\<open>toString\<close> the inherited one answers
  \<^verbatim>\<open>[object Object]\<close>. An array answers with \<^verbatim>\<open>join\<close>: its elements converted
  (null and undefined as the empty text) and separated by commas.
\<close>

fun to_string :: "runtime \<Rightarrow> jsval \<Rightarrow> error + string"
  and join_elements :: "runtime \<Rightarrow> jsval list \<Rightarrow> error + string" where
  "to_string rt JUndefined = Inr ''undefined''"
| "to_string rt JNull = Inr ''null''"
| "to_string rt (JBool b) = Inr (if b then ''true'' else ''false'')"
| "to_string rt (JNum n) = Inr (numberToString rt n)"
| "to_string rt (JStr s) = Inr s"
| "to_string rt (JArr vs) = join_elements rt vs"
| "to_string rt (JObj kvs) =
     (if has_key ''toString'' kvs
      then Inl (TypeError ''Cannot convert object to primitive value'')
      else Inr ''[object Object]'')"
| "join_elements rt [] = Inr []"
| "join_elements rt (v # vs) =
     (case (if v = JUndefined \<or> v = JNull then Inr [] else to_string rt v) of
        Inl e \<Rightarrow> Inl e
      | Inr s \<Rightarrow>
          (if vs = [] then Inr s
           else case join_elements rt vs of
                  Inl e \<Rightarrow> Inl e
                | Inr t \<Rightarrow> Inr (s @ '','' @ t)))"

text \<open>\<^verbatim>\<open>new Date(epoch).getTime()\<close>, \<open>None\<close> for NaN: a string is parsed, an array or
  object is converted to a string (which may raise) and parsed, any other value is
  converted to a number.\<close>

fun newDate :: "runtime \<Rightarrow> jsval \<Rightarrow> error + int option" where
  "newDate rt (JStr s) = Inr (dateParse rt s)"
| "newDate rt (JNum n) = Inr (timeClip n)"
| "newDate rt (JBool b) = Inr (Some (if b then 1 else 0))"
| "newDate rt JNull = Inr (Some 0)"
| "newDate rt JUndefined = Inr None"
| "newDate rt v =
     (case to_string rt v of
        Inl e \<Rightarrow> Inl e
      | Inr s \<Rightarrow> Inr (dateParse rt s))"

definition formatDate :: "runtime \<Rightarrow> jsval \<Rightarrow> error + string option" where
  "formatDate rt epoch =
     (if \<not> truthy epoch \<and> epoch \<noteq> JNum 0 then Inr None
      else case newDate rt epoch of
             Inl e \<Rightarrow> Inl e
           | Inr None \<Rightarrow> Inr None
           | Inr (Some t) \<Rightarrow> Inr (Some (toLocaleString rt t)))"

subsection \<open>normalizeOutage\<close>

record outage =
  objectid :: jsval
  globalid :: jsval
  title :: jsval
  status :: jsval
  location :: jsval
  county :: jsval
  startdate_epoch :: jsval
  enddate_epoch :: jsval
  startdate_human :: "string option"
  enddate_human :: "string option"
  reference :: jsval
  description :: string

text \<open>The fields of the object literal are evaluated in the order written, so the two
  calls of \<^verbatim>\<open>formatDate\<close> come last and the start date first.\<close>

definition normalizeOutage :: "runtime \<Rightarrow> props \<Rightarrow> error + outage" where
  "normalizeOutage rt p =
     (let rawDesc = js_or (field p ''DESCRIPTION'') (JStr [])
      in case stripHtml rawDesc of
           Inl e \<Rightarrow> Inl e
         | Inr plainDesc \<Rightarrow>
             (let ref = js_or (field p ''REFERENCENUM'') (extractReference plainDesc)
              in case formatDate rt (field p ''STARTDATE'') of
                   Inl e \<Rightarrow> Inl e
                 | Inr start_human \<Rightarrow>
                     (case formatDate rt (field p ''ENDDATE'') of
                        Inl e \<Rightarrow> Inl e
                      | Inr end_human \<Rightarrow>
                          Inr \<lparr> objectid = field p ''OBJECTID'',
                                globalid = field p ''GLOBALID'',
                                title = js_or (field p ''TITLE'') (JStr []),
                                status = js_or (field p ''STATUS'') (JStr []),
                                location = js_or (field p ''LOCATION'') (JStr []),
                                county = js_or (field p ''COUNTY'') (JStr []),
                                startdate_epoch = js_or (field p ''STARTDATE'') JNull,
                                enddate_epoch = js_or (field p ''ENDDATE'') JNull,
                                startdate_human = start_human,
                                enddate_human = end_human,
                                reference = ref,
                                description = plainDesc \<rparr>)))"

subsection \<open>The route GET /api/outages\<close>

text \<open>The parsed query string of the request, \<^verbatim>\<open>req.query\<close>.\<close>

record query =
  q_county :: jsval
  q_refnum :: jsval
  q_location :: jsval

text \<open>\<^verbatim>\<open>req.query.x || ""\<close>\<close>

definition or_empty :: "string option \<Rightarrow> string" where
  "or_empty v = (case v of None \<Rightarrow> [] | Some s \<Rightarrow> s)"

text \<open>\<^verbatim>\<open>(req.query.refnum || "").trim() || null\<close> on a parameter that is absent or a
  string.\<close>

definition refnum_param :: "string option \<Rightarrow> string option" where
  "refnum_param v = (let t = trim (or_empty v) in if t = [] then None else Some t)"

text \<open>\<^verbatim>\<open>(req.query.location || "").trim().toLowerCase()\<close> on a parameter that is absent
  or a string.\<close>

definition location_param :: "string option \<Rightarrow> string" where
  "location_param v = toLowerCase (trim (or_empty v))"

text \<open>
  The same two expressions on any value of \<^verbatim>\<open>req.query\<close>: a falsy value is replaced
  by the empty string; a truthy value that is not a string (an array or an object) has
  no method \<^verbatim>\<open>trim\<close>, and the call raises.
\<close>

definition query_refnum :: "jsval \<Rightarrow> error + string option" where
  "query_refnum v =
     (case js_or v (JStr []) of
        JStr s \<Rightarrow> Inr (refnum_param (Some s))
      | _ \<Rightarrow> Inl (TypeError ''trim is not a function''))"

definition query_location :: "jsval \<Rightarrow> error + string" where
  "query_location v =
     (case js_or v (JStr []) of
        JStr s \<Rightarrow> Inr (location_param (Some s))
      | _ \<Rightarrow> Inl (TypeError ''trim is not a function''))"

text \<open>The parameters of the upstream request.\<close>

record request_params =
  param_f :: string
  param_where :: string
  param_outFields :: string
  param_returnGeometry :: string
  param_returnIdsOnly :: string
  param_orderByFields :: string
  param_outSR :: string

definition quoted :: "string \<Rightarrow> string" where
  "quoted s = CHR 0x27 # s @ [CHR 0x27]"

definition mk_params :: "string \<Rightarrow> request_params" where
  "mk_params county_name =
     \<lparr> param_f = ''json'',
       param_where = ''STATUS='' @ quoted ''Open'' @ '' AND APPROVALSTATUS=''
                     @ quoted ''Approved'' @ '' AND COUNTY='' @ quoted county_name,
       param_outFields = ''*'',
       param_returnGeometry = ''true'',
       param_returnIdsOnly = ''false'',
       param_orderByFields = ''STARTDATE DESC'',
       param_outSR = ''4326'' \<rparr>"

text \<open>
  One feature of the upstream answer; a wrapper that is missing or falsy is \<open>None\<close>.
  \<^verbatim>\<open>f.properties || f.attributes || {}\<close> chooses the raw record.
\<close>

record feature =
  properties :: "props option"
  attributes :: "props option"

definition feature_props :: "feature \<Rightarrow> props" where
  "feature_props f =
     (case properties f of
        Some p \<Rightarrow> p
      | None \<Rightarrow> (case attributes f of Some p \<Rightarrow> p | None \<Rightarrow> Map.empty))"

text \<open>\<^verbatim>\<open>xs.map(g)\<close> and \<^verbatim>\<open>xs.filter(g)\<close> with a callback that may raise: the first
  exception ends the loop.\<close>

fun map_raising :: "('a \<Rightarrow> error + 'b) \<Rightarrow> 'a list \<Rightarrow> error + 'b list" where
  "map_raising g [] = Inr []"
| "map_raising g (x # xs) =
     (case g x of
        Inl e \<Rightarrow> Inl e
      | Inr y \<Rightarrow> (case map_raising g xs of Inl e \<Rightarrow> Inl e | Inr ys \<Rightarrow> Inr (y # ys)))"

fun filter_raising :: "('a \<Rightarrow> error + bool) \<Rightarrow> 'a list \<Rightarrow> error + 'a list" where
  "filter_raising g [] = Inr []"
| "filter_raising g (x # xs) =
     (case g x of
        Inl e \<Rightarrow> Inl e
      | Inr keep \<Rightarrow>
          (case filter_raising g xs of
             Inl e \<Rightarrow> Inl e
           | Inr ys \<Rightarrow> Inr (if keep then x # ys else ys)))"

text \<open>\<^verbatim>\<open>if (refnum) outages = outages.filter((o) => o.reference === refnum)\<close>\<close>

definition by_refnum :: "string option \<Rightarrow> outage list \<Rightarrow> outage list" where
  "by_refnum refnum outages =
     (case refnum of
        None \<Rightarrow> outages
      | Some r \<Rightarrow> filter (\<lambda>x. reference x = JStr r) outages)"

text \<open>\<^verbatim>\<open>(v || "").toLowerCase()\<close>: a truthy value that is not a string has no such
  method.\<close>

definition lower_of :: "jsval \<Rightarrow> error + string" where
  "lower_of v =
     (case js_or v (JStr []) of
        JStr s \<Rightarrow> Inr (toLowerCase s)
      | _ \<Rightarrow> Inl (TypeError ''toLowerCase is not a function''))"

text \<open>The callback of the location filter.\<close>

definition location_matches :: "string \<Rightarrow> outage \<Rightarrow> error + bool" where
  "location_matches locationFilter x =
     (case lower_of (location x) of
        Inl e \<Rightarrow> Inl e
      | Inr loc \<Rightarrow>
          (case lower_of (JStr (description x)) of
             Inl e \<Rightarrow> Inl e
           | Inr desc \<Rightarrow>
               Inr (js_includes loc locationFilter \<or> js_includes desc locationFilter)))"

definition by_location :: "string \<Rightarrow> outage list \<Rightarrow> error + outage list" where
  "by_location locationFilter outages =
     (if locationFilter = [] then Inr outages
      else filter_raising (location_matches locationFilter) outages)"

text \<open>The two filters in the order of the source.\<close>

definition apply_filters :: "string option \<Rightarrow> string \<Rightarrow> outage list \<Rightarrow> error + outage list" where
  "apply_filters refnum locationFilter outages =
     by_location locationFilter (by_refnum refnum outages)"

text \<open>The responses of the route.\<close>

record success_body =
  res_county :: jsval
  res_refnum :: "string option"
  res_locationFilter :: "string option"
  res_count :: nat
  res_outages :: "outage list"

datatype payload =
    ErrorBody string
  | ErrorDetails string string
  | Outages success_body

record response =
  http_status :: nat
  json :: payload

text \<open>
  \<open>axios_get\<close> stands for \<^verbatim>\<open>axios.get(BASE_URL, { params })\<close>: \<open>Inl msg\<close> when the call
  rejects with \<^verbatim>\<open>err.message = msg\<close>, otherwise the feature array of the answer
  (\<open>None\<close> when \<^verbatim>\<open>response.data\<close> or \<^verbatim>\<open>data.features\<close> is missing).

  The handler returns its outcome and the upstream requests it made. The outcome is the
  response it sends, or \<open>Inl e\<close> when the exception \<open>e\<close> leaves the handler and no response
  is sent: the two \<^verbatim>\<open>trim\<close> calls and the template literal of the where clause stand
  before the \<^verbatim>\<open>try\<close> block, the first two even before the test of the county.
\<close>

definition handler ::
  "runtime \<Rightarrow> (request_params \<Rightarrow> string + feature list option) \<Rightarrow> query
     \<Rightarrow> (error + response) \<times> request_params list" where
  "handler rt axios_get q =
     (let county_param = q_county q
      in case query_refnum (q_refnum q) of
           Inl e \<Rightarrow> (Inl e, [])
         | Inr refnum \<Rightarrow>
        (case query_location (q_location q) of
           Inl e \<Rightarrow> (Inl e, [])
         | Inr locationFilter \<Rightarrow>
        if \<not> truthy county_param
        then (Inr \<lparr> http_status = 400,
                      json = ErrorBody ''Missing required parameter: county'' \<rparr>, [])
        else
        (case to_string rt county_param of
           Inl e \<Rightarrow> (Inl e, [])
         | Inr county_text \<Rightarrow>
           (let params = mk_params county_text
            in case axios_get params of
                 Inl msg \<Rightarrow>
                   (Inr \<lparr> http_status = 500,
                           json = ErrorDetails ''Failed to fetch outage data'' msg \<rparr>,
                    [params])
               | Inr data \<Rightarrow>
                   (let features = (case data of None \<Rightarrow> [] | Some fs \<Rightarrow> fs)
                    in case map_raising (\<lambda>f. normalizeOutage rt (feature_props f)) features of
                         Inl e \<Rightarrow>
                           (Inr \<lparr> http_status = 500,
                                   json = ErrorDetails ''Failed to fetch outage data''
                                            (message e) \<rparr>,
                            [params])
                       | Inr outages \<Rightarrow>
                           (case apply_filters refnum locationFilter outages of
                              Inl e \<Rightarrow>
                                (Inr \<lparr> http_status = 500,
                                        json = ErrorDetails ''Failed to fetch outage data''
                                                 (message e) \<rparr>,
                                 [params])
                            | Inr kept \<Rightarrow>
                                (Inr \<lparr> http_status = 200,
                                        json = Outages
                                          \<lparr> res_county = county_param,
                                            res_refnum = refnum,
                                            res_locationFilter =
                                              (if locationFilter = [] then None
                                               else Some locationFilter),
                                            res_count = length kept,
                                            res_outages = kept \<rparr> \<rparr>,
                                 [params])))))))"

subsection \<open>Notions used in the statements\<close>

text \<open>The text of a value that is a string, and the empty text for any other value.\<close>

fun string_of :: "jsval \<Rightarrow> string" where
  "string_of (JStr s) = s"
| "string_of v = []"

text \<open>
  A reference code is three letters A-Z followed by eight digits. In \<open>a @ m @ b\<close> the code
  \<open>m\<close> stands between word boundaries when \<open>a\<close> does not end, and \<open>b\<close> does not start,
  with a letter, a digit or an underscore.
\<close>

definition is_ref :: "string \<Rightarrow> bool" where
  "is_ref m = (length m = 11 \<and> list_all isUpper (take 3 m) \<and> list_all isDigit (drop 3 m))"

definition ref_occurrence :: "string \<Rightarrow> string \<Rightarrow> string \<Rightarrow> bool" where
  "ref_occurrence a m b =
     (is_ref m \<and> (a = [] \<or> \<not> isWord (last a)) \<and> (b = [] \<or> \<not> isWord (hd b)))"

text \<open>The same for a text scanned from a position whose previous character is described
  by \<open>prev\<close>, as \<open>first_ref\<close> carries it.\<close>

definition occ :: "bool \<Rightarrow> string \<Rightarrow> string \<Rightarrow> string \<Rightarrow> bool" where
  "occ prev a m b =
     (is_ref m \<and> (if a = [] then \<not> prev else \<not> isWord (last a)) \<and> (b = [] \<or> \<not> isWord (hd b)))"

text \<open>The pattern as the specification writes it, \<^verbatim>\<open>[A-Z]{3}[0-9]{8}\<close> with no word
  boundary: its first match in a text.\<close>

fun spec_first_reference :: "string \<Rightarrow> string option" where
  "spec_first_reference [] = None"
| "spec_first_reference (c # cs) =
     (if is_ref (take 11 (c # cs)) then Some (take 11 (c # cs)) else spec_first_reference cs)"

text \<open>A tag on one line: a \<^verbatim>\<open><\<close>, later a \<^verbatim>\<open>>\<close>, and no line terminator between the
  two.\<close>

definition has_line_tag :: "string \<Rightarrow> bool" where
  "has_line_tag r =
     (\<exists>a t b. r = a @ CHR ''<'' # t @ CHR ''>'' # b \<and> (\<forall>c \<in> set t. \<not> isLineTerminator c))"








text \<open>
  The values that \<^verbatim>\<open>new Date\<close> cannot convert to a primitive: an object with an own
  property \<^verbatim>\<open>toString\<close>, and an array that holds such a value.
\<close>

fun unconvertible :: "jsval \<Rightarrow> bool" where
  "unconvertible (JObj kvs) = has_key ''toString'' kvs"
| "unconvertible (JArr vs) = (\<exists>v \<in> set vs. unconvertible v)"
| "unconvertible v = False"

subsection \<open>Sample data for concrete evaluations\<close>

text \<open>A stand-in for the runtime: no string parses as a date, every instant renders
  as the same text, and so does every number.\<close>

definition sample_runtime :: runtime where
  "sample_runtime =
     \<lparr> dateParse = (\<lambda>s. None), toLocaleString = (\<lambda>t. ''01/01/1970, 01:00:00''),
       numberToString = (\<lambda>n. ''0'') \<rparr>"

text \<open>An upstream that answers every request with two features, one under
  \<^verbatim>\<open>attributes\<close> and one under \<^verbatim>\<open>properties\<close>.\<close>

definition sample_upstream :: "request_params \<Rightarrow> string + feature list option" where
  "sample_upstream params =
     Inr (Some [\<lparr> properties = None,
                   attributes = Some [''OBJECTID'' \<mapsto> JNum 7,
                                      ''LOCATION'' \<mapsto> JStr ''Ballina Co. Mayo'',
                                      ''DESCRIPTION'' \<mapsto> JStr ''Works<br>MAY00102991''] \<rparr>,
                \<lparr> properties = Some [''OBJECTID'' \<mapsto> JNum 8,
                                      ''LOCATION'' \<mapsto> JStr ''Westport''],
                   attributes = None \<rparr>])"

text \<open>Three normalised outages that differ in reference, location and description.\<close>

definition sample_outage :: "jsval \<Rightarrow> string \<Rightarrow> string \<Rightarrow> outage" where
  "sample_outage r loc desc =
     \<lparr> objectid = JNum 1, globalid = JStr ''g'', title = JStr ''Burst main'',
       status = JStr ''Open'', location = JStr loc, county = JStr ''Mayo'',
       startdate_epoch = JNull, enddate_epoch = JNull,
       startdate_human = None, enddate_human = None,
       reference = r, description = desc \<rparr>"

definition sample_outages :: "outage list" where
  "sample_outages =
     [sample_outage (JStr ''MAY00102991'') ''Ballina Co. Mayo'' ''Works'',
      sample_outage (JStr ''may00102991'') ''Westport'' ''Repairs near Ballina'',
      sample_outage JNull ''Castlebar'' ''Planned'']"

text \<open>The outage that \<^verbatim>\<open>normalizeOutage\<close> returns for a raw record whose \<^verbatim>\<open>LOCATION\<close> is
  the number 5.\<close>

definition numeric_location_outage :: outage where
  "numeric_location_outage =
     \<lparr> objectid = JUndefined, globalid = JUndefined, title = JStr [], status = JStr [],
       location = JNum 5, county = JStr [], startdate_epoch = JNull, enddate_epoch = JNull,
       startdate_human = None, enddate_human = None, reference = JStr ''MAY00102991'',
       description = [] \<rparr>"

section \<open>Properties\<close>

subsection \<open>Strings\<close>

lemma trim_Nil [simp]: "trim [] = []"
  by (simp add: trim_def)

lemma toLowerCase_Nil_iff [simp]: "toLowerCase s = [] \<longleftrightarrow> s = []"
  by (simp add: toLowerCase_def)

lemma starts_with_iff: "starts_with s t \<longleftrightarrow> (\<exists>b. s = t @ b)"
  by (induction s t rule: starts_with.induct) auto

lemma js_includes_iff: "js_includes s t \<longleftrightarrow> (\<exists>a b. s = a @ t @ b)"
proof (induction s)
  case Nil
  then show ?case by auto
next
  case (Cons c cs)
  show ?case
  proof
    assume "js_includes (c # cs) t"
    then consider "starts_with (c # cs) t" | "js_includes cs t" by auto
    then show "\<exists>a b. c # cs = a @ t @ b"
    proof cases
      case 1
      then obtain b where "c # cs = t @ b" by (auto simp: starts_with_iff)
      then have "c # cs = [] @ t @ b" by simp
      then show ?thesis by blast
    next
      case 2
      then obtain a b where "cs = a @ t @ b" using Cons.IH by blast
      then have "c # cs = (c # a) @ t @ b" by simp
      then show ?thesis by blast
    qed
  next
    assume "\<exists>a b. c # cs = a @ t @ b"
    then obtain a b where ab: "c # cs = a @ t @ b" by blast
    show "js_includes (c # cs) t"
    proof (cases a)
      case Nil
      then have "starts_with (c # cs) t" using ab by (auto simp: starts_with_iff)
      then show ?thesis by simp
    next
      case (Cons a0 as)
      then have "cs = as @ t @ b" using ab by simp
      then have "js_includes cs t" using Cons.IH by blast
      then show ?thesis by simp
    qed
  qed
qed


lemma set_trim: "set (trim l) \<subseteq> set l"
  by (auto simp: trim_def dest!: set_dropWhileD)

lemma trim_ends: "trim l \<noteq> [] \<Longrightarrow> \<not> isSpace (hd (trim l)) \<and> \<not> isSpace (last (trim l))"
proof -
  assume ne: "trim l \<noteq> []"
  define y where "y = dropWhile isSpace l"
  define x where "x = dropWhile isSpace (rev y)"
  have tr: "trim l = rev x" by (simp add: trim_def x_def y_def)
  with ne have x: "x \<noteq> []" by simp
  then have "\<not> isSpace (hd x)" unfolding x_def by (rule hd_dropWhile)
  then have last: "\<not> isSpace (last (trim l))" using x by (simp add: tr last_rev)
  have "suffix x (rev y)" unfolding x_def by (rule suffix_dropWhile)
  then obtain p where p: "rev y = p @ x" by (auto simp: suffix_def)
  then have "y = rev x @ rev p" by (metis rev_append rev_rev_ident)
  then have "hd y = hd (rev x)" using x by simp
  moreover have "y \<noteq> []" using p x by auto
  then have "\<not> isSpace (hd y)" unfolding y_def by (rule hd_dropWhile)
  ultimately show ?thesis using last by (simp add: tr)
qed

lemma toLowerChar_unfold: "toLowerChar c = (if (65 \<le> (of_char c :: nat) \<and> (of_char c :: nat) \<le> 90) \<or> (192 \<le> (of_char c :: nat) \<and> (of_char c :: nat) \<le> 222 \<and> (of_char c :: nat) \<noteq> 215) then char_of ((of_char c :: nat) + 32) else c)"
  by (simp add: toLowerChar_def Let_def)

lemma char_of_lt_mod: "char_of (n + 32 :: nat) = CHR ''<'' \<Longrightarrow> (n + 32) mod 256 = 60"
proof -
  assume "char_of (n + 32 :: nat) = CHR ''<''"
  then have "of_char (char_of (n + 32 :: nat) :: char) = (of_char (CHR ''<'') :: nat)"
    by (rule arg_cong)
  then show ?thesis by (simp only: of_char_of of_char_Char) simp
qed

lemma shifted_not_lt: "65 \<le> n \<Longrightarrow> n < 256 \<Longrightarrow> (n + 32) mod 256 \<noteq> (60::nat)"
proof (cases "n + 32 < 256")
  case True
  assume "65 \<le> n"
  with True show ?thesis by simp
next
  case False
  assume "n < 256"
  with False have "(n + 32) mod 256 = n + 32 - 256" 
    by (simp add: le_mod_geq)
  with \<open>n < 256\<close> show ?thesis by simp
qed

lemma toLowerChar_lt: "toLowerChar c = CHR ''<'' \<longleftrightarrow> c = CHR ''<''"
proof
  assume h: "toLowerChar c = CHR ''<''"
  show "c = CHR ''<''"
  proof (rule ccontr)
    assume n: "c \<noteq> CHR ''<''"
    have "65 \<le> (of_char c :: nat) \<and> char_of (of_char c + 32 :: nat) = CHR ''<''"
      using h n unfolding toLowerChar_unfold by (cases "65 \<le> (of_char c :: nat)") (simp_all split: if_splits)
    moreover have "(of_char c :: nat) < 256" by simp
    ultimately show False using char_of_lt_mod [of "of_char c"] shifted_not_lt [of "of_char c"] by blast
  qed
next
  assume "c = CHR ''<''"
  then show "toLowerChar c = CHR ''<''" by (simp add: toLowerChar_unfold)
qed


subsection \<open>Lines\<close>

lemma split_lines_nonempty [simp]: "split_lines s \<noteq> []"
proof (induction s)
  case Nil
  then show ?case by simp
next
  case (Cons c cs)
  then show ?case by (cases "split_lines cs") auto
qed








lemma split_lines_no_LF: "l \<in> set (split_lines s) \<Longrightarrow> LF \<notin> set l"
proof (induction s arbitrary: l)
  case Nil
  then show ?case by simp
next
  case (Cons c cs)
  obtain l0 ls where sp: "split_lines cs = l0 # ls" by (cases "split_lines cs") auto
  show ?case
  proof (cases "c = LF")
    case True
    with Cons.prems have "l = [] \<or> l \<in> set (split_lines cs)" by simp
    then show ?thesis using Cons.IH by auto
  next
    case False
    with Cons.prems sp have "l = c # l0 \<or> l \<in> set ls" by simp
    then show ?thesis using Cons.IH [of l0] Cons.IH [of l] sp False by auto
  qed
qed

lemma split_lines_line: "LF \<notin> set l \<Longrightarrow> split_lines (l @ LF # r) = l # split_lines r"
  by (induction l) auto

lemma split_lines_single: "LF \<notin> set l \<Longrightarrow> split_lines l = [l]"
  by (induction l) auto

lemma split_join:
  "ls \<noteq> [] \<Longrightarrow> \<forall>l \<in> set ls. LF \<notin> set l \<Longrightarrow> split_lines (join_lines ls) = ls"
proof (induction ls rule: join_lines.induct)
  case 1
  then show ?case by simp
next
  case (2 l)
  then show ?case by (simp add: split_lines_single)
next
  case (3 l0 l1 ls)
  then show ?case by (simp add: split_lines_line)
qed

subsection \<open>Tags\<close>

lemma tag_end_Some_iff:
  "tag_end s = Some r \<longleftrightarrow>
     (\<exists>t. s = t @ CHR ''>'' # r \<and> CHR ''>'' \<notin> set t \<and> (\<forall>c \<in> set t. \<not> isLineTerminator c))"
proof (induction s)
  case Nil
  then show ?case by simp
next
  case (Cons c cs)
  show ?case
  proof (cases "c = CHR ''>''")
    case True
    have "(\<exists>t. c # cs = t @ CHR ''>'' # r \<and> CHR ''>'' \<notin> set t \<and> (\<forall>c \<in> set t. \<not> isLineTerminator c))
          \<longleftrightarrow> cs = r"
    proof
      assume "\<exists>t. c # cs = t @ CHR ''>'' # r \<and> CHR ''>'' \<notin> set t \<and> (\<forall>c \<in> set t. \<not> isLineTerminator c)"
      then obtain t where t: "c # cs = t @ CHR ''>'' # r" "CHR ''>'' \<notin> set t" by blast
      then have "t = []" using True by (cases t) auto
      with t show "cs = r" by simp
    next
      assume "cs = r"
      then have "c # cs = [] @ CHR ''>'' # r" using True by simp
      then show "\<exists>t. c # cs = t @ CHR ''>'' # r \<and> CHR ''>'' \<notin> set t \<and> (\<forall>c \<in> set t. \<not> isLineTerminator c)"
        by (intro exI [of _ "[]"]) simp
    qed
    with True show ?thesis by auto
  next
    case False
    have split: "(\<exists>t. c # cs = t @ CHR ''>'' # r \<and> CHR ''>'' \<notin> set t \<and> (\<forall>c \<in> set t. \<not> isLineTerminator c))
          \<longleftrightarrow> (\<not> isLineTerminator c \<and>
               (\<exists>t. cs = t @ CHR ''>'' # r \<and> CHR ''>'' \<notin> set t \<and> (\<forall>c \<in> set t. \<not> isLineTerminator c)))"
    proof
      assume "\<exists>t. c # cs = t @ CHR ''>'' # r \<and> CHR ''>'' \<notin> set t \<and> (\<forall>c \<in> set t. \<not> isLineTerminator c)"
      then obtain t where t: "c # cs = t @ CHR ''>'' # r" "CHR ''>'' \<notin> set t"
        "\<forall>c \<in> set t. \<not> isLineTerminator c" by blast
      then obtain t' where t': "t = c # t'" using False by (cases t) auto
      with t have "cs = t' @ CHR ''>'' # r" "CHR ''>'' \<notin> set t'" "\<forall>c \<in> set t'. \<not> isLineTerminator c"
        "\<not> isLineTerminator c" by auto
      then show "\<not> isLineTerminator c \<and>
               (\<exists>t. cs = t @ CHR ''>'' # r \<and> CHR ''>'' \<notin> set t \<and> (\<forall>c \<in> set t. \<not> isLineTerminator c))"
        by blast
    next
      assume "\<not> isLineTerminator c \<and>
               (\<exists>t. cs = t @ CHR ''>'' # r \<and> CHR ''>'' \<notin> set t \<and> (\<forall>c \<in> set t. \<not> isLineTerminator c))"
      then obtain t where t: "\<not> isLineTerminator c" "cs = t @ CHR ''>'' # r" "CHR ''>'' \<notin> set t"
        "\<forall>c \<in> set t. \<not> isLineTerminator c" by blast
      then show "\<exists>t. c # cs = t @ CHR ''>'' # r \<and> CHR ''>'' \<notin> set t \<and> (\<forall>c \<in> set t. \<not> isLineTerminator c)"
        using False by (intro exI [of _ "c # t"]) simp
    qed
    show ?thesis
      unfolding split using False Cons.IH by simp
  qed
qed


lemma tag_end_tag:
  "CHR ''>'' \<notin> set t \<Longrightarrow> \<forall>c \<in> set t. \<not> isLineTerminator c \<Longrightarrow> tag_end (t @ CHR ''>'' # b) = Some b"
  unfolding tag_end_Some_iff by blast

lemma has_line_tag_Nil [simp]: "\<not> has_line_tag []"
  by (simp add: has_line_tag_def)








lemma strip_text_lines:
  assumes "strip_text s \<noteq> []" and "l \<in> set (split_lines (strip_text s))"
  shows "l \<noteq> [] \<and> \<not> isSpace (hd l) \<and> \<not> isSpace (last l)"
proof -
  define ls where "ls = filter (\<lambda>l. l \<noteq> [])
      (map trim (split_lines (delete_tags (replace_div (replace_br s)))))"
  have st: "strip_text s = join_lines ls" by (simp add: strip_text_def ls_def)
  with assms(1) have ne: "ls \<noteq> []" by auto
  have "\<forall>l \<in> set ls. LF \<notin> set l"
    unfolding ls_def using split_lines_no_LF set_trim by fastforce
  from split_join [OF ne this] assms(2) have "l \<in> set ls" by (simp add: st)
  then obtain l0 where "l = trim l0" "l \<noteq> []" unfolding ls_def by auto
  then show ?thesis using trim_ends [of l0] by simp
qed


subsection \<open>The replacements, tag by tag\<close>


























subsection \<open>stripHtml\<close>




subsection \<open>extractReference\<close>

lemma word_boundary_True: "word_boundary True b \<longleftrightarrow> (b = [] \<or> \<not> isWord (hd b))"
  by (cases b) (auto simp: word_boundary_def)

lemma is_ref_hd_word: "is_ref m \<Longrightarrow> m \<noteq> [] \<and> isWord (hd m)"
proof -
  assume r: "is_ref m"
  then have "length m = 11" by (simp add: is_ref_def)
  then obtain c cs where m: "m = c # cs" by (cases m) auto
  from r have "list_all isUpper (take 3 (c # cs))" unfolding m is_ref_def by blast
  then have "isUpper c" by (simp add: take_Cons')
  then show ?thesis using m by (simp add: isWord_def)
qed

lemma is_ref_take: "11 \<le> length s \<Longrightarrow>
  is_ref (take 11 s) \<longleftrightarrow> list_all isUpper (take 3 s) \<and> list_all isDigit (take 8 (drop 3 s))"
  by (simp add: is_ref_def drop_take min_def)

lemma match_ref_iff:
  "match_ref prev s = Some m \<longleftrightarrow> (\<exists>b. s = m @ b \<and> occ prev [] m b)"
proof
  assume "match_ref prev s = Some m"
  then have h: "word_boundary prev s" "11 \<le> length s" "list_all isUpper (take 3 s)"
    "list_all isDigit (take 8 (drop 3 s))" "word_boundary True (drop 11 s)" "m = take 11 s"
    by (auto simp: match_ref_def split: if_splits)
  have r: "is_ref m" using h by (simp add: is_ref_take)
  from is_ref_hd_word [OF r] h(2,6) have "isWord (hd s)" by (cases s) auto
  with h(1,2) have "\<not> prev" by (cases s) (auto simp: word_boundary_def)
  moreover have "s = m @ drop 11 s" using h(6) by simp
  ultimately have "s = m @ drop 11 s \<and> occ prev [] m (drop 11 s)"
    using r h(5) by (simp add: occ_def word_boundary_True)
  then show "\<exists>b. s = m @ b \<and> occ prev [] m b" by blast
next
  assume "\<exists>b. s = m @ b \<and> occ prev [] m b"
  then obtain b where s: "s = m @ b" and o: "is_ref m" "\<not> prev" "b = [] \<or> \<not> isWord (hd b)"
    by (auto simp: occ_def)
  have len: "length m = 11" using o(1) by (simp add: is_ref_def)
  then have tk: "take 11 s = m" "drop 11 s = b" using s by auto
  obtain c cs where ccs: "m = c # cs" using is_ref_hd_word [OF o(1)] by (cases m) auto
  then have "isWord c" using is_ref_hd_word [OF o(1)] by simp
  then have wb: "word_boundary prev s" using o(2) s ccs by (simp add: word_boundary_def)
  have "11 \<le> length s" using s len by simp
  with is_ref_take [of s] tk o(1)
  show "match_ref prev s = Some m"
    using wb o(3) by (simp add: match_ref_def word_boundary_True)
qed

lemma match_ref_None_iff:
  "match_ref prev s = None \<longleftrightarrow> \<not> (\<exists>m b. s = m @ b \<and> occ prev [] m b)"
proof (cases "match_ref prev s")
  case None
  have "\<not> (\<exists>m b. s = m @ b \<and> occ prev [] m b)"
  proof
    assume "\<exists>m b. s = m @ b \<and> occ prev [] m b"
    then obtain m where "\<exists>b. s = m @ b \<and> occ prev [] m b" by blast
    then have "match_ref prev s = Some m" by (simp only: match_ref_iff)
    with None show False by simp
  qed
  with None show ?thesis by simp
next
  case (Some m)
  then have "\<exists>b. s = m @ b \<and> occ prev [] m b" by (simp only: match_ref_iff)
  then have "\<exists>m b. s = m @ b \<and> occ prev [] m b" by blast
  with Some show ?thesis by simp
qed

lemma occ_Cons: "occ prev (c # a) m b \<longleftrightarrow> occ (isWord c) a m b"
  by (cases a) (auto simp: occ_def)

lemma first_ref_None:
  "first_ref prev s = None \<Longrightarrow> \<not> (\<exists>a m b. s = a @ m @ b \<and> occ prev a m b)"
proof (induction s arbitrary: prev)
  case Nil
  then show ?case by (auto simp: occ_def is_ref_def)
next
  case (Cons c cs)
  from Cons.prems have none: "match_ref prev (c # cs) = None" and rest: "first_ref (isWord c) cs = None"
    by (auto split: option.splits)
  show ?case
  proof
    assume "\<exists>a m b. c # cs = a @ m @ b \<and> occ prev a m b"
    then obtain a m b where e: "c # cs = a @ m @ b" and o: "occ prev a m b" by blast
    show False
    proof (cases a)
      case Nil
      with e o none show False by (auto simp: match_ref_None_iff)
    next
      case (Cons a0 as)
      with e o have "cs = as @ m @ b" "occ (isWord c) as m b" by (auto simp: occ_Cons)
      with Cons.IH [OF rest] show False by blast
    qed
  qed
qed

lemma first_ref_Some:
  "first_ref prev s = Some m \<Longrightarrow>
     \<exists>a b. s = a @ m @ b \<and> occ prev a m b \<and>
       (\<forall>a' m' b'. s = a' @ m' @ b' \<and> occ prev a' m' b' \<longrightarrow> length a \<le> length a')"
proof (induction s arbitrary: prev)
  case Nil
  then show ?case by simp
next
  case (Cons c cs)
  show ?case
  proof (cases "match_ref prev (c # cs)")
    case (Some m0)
    with Cons.prems have "m0 = m" by simp
    with Some have "\<exists>b. c # cs = m @ b \<and> occ prev [] m b"
      by (simp only: match_ref_iff)
    then obtain b where "c # cs = m @ b" "occ prev [] m b" by blast
    then show ?thesis by (intro exI [of _ "[]"] exI [of _ b]) simp
  next
    case None
    with Cons.prems have "first_ref (isWord c) cs = Some m" by simp
    from Cons.IH [OF this] obtain a b where ab: "cs = a @ m @ b" "occ (isWord c) a m b"
      and least: "\<forall>a' m' b'. cs = a' @ m' @ b' \<and> occ (isWord c) a' m' b' \<longrightarrow> length a \<le> length a'"
      by blast
    have "c # cs = (c # a) @ m @ b" "occ prev (c # a) m b"
      using ab by (auto simp: occ_Cons)
    moreover have "\<forall>a' m' b'. c # cs = a' @ m' @ b' \<and> occ prev a' m' b' \<longrightarrow> length (c # a) \<le> length a'"
    proof (intro allI impI)
      fix a' m' b' assume h: "c # cs = a' @ m' @ b' \<and> occ prev a' m' b'"
      show "length (c # a) \<le> length a'"
      proof (cases a')
        case Nil
        with h None show ?thesis by (auto simp: match_ref_None_iff)
      next
        case (Cons a0 as)
        with h have "cs = as @ m' @ b'" "occ (isWord c) as m' b'" by (auto simp: occ_Cons)
        with least have "length a \<le> length as" by blast
        with Cons show ?thesis by simp
      qed
    qed
    ultimately show ?thesis by (intro exI [of _ "c # a"] exI [of _ b]) simp
  qed
qed

lemma occ_False: "occ False a m b = ref_occurrence a m b"
  by (auto simp: occ_def ref_occurrence_def)

lemma extractReference_cases:
  "(\<exists>a m b. s = a @ m @ b \<and> ref_occurrence a m b \<and> extractReference s = JStr m \<and>
       (\<forall>a' m' b'. s = a' @ m' @ b' \<and> ref_occurrence a' m' b' \<longrightarrow> length a \<le> length a'))
   \<or> (extractReference s = JNull \<and> \<not> (\<exists>a m b. s = a @ m @ b \<and> ref_occurrence a m b))"
proof (cases "first_ref False s")
  case None
  from first_ref_None [OF this] have "\<not> (\<exists>a m b. s = a @ m @ b \<and> ref_occurrence a m b)"
    by (simp add: occ_False)
  moreover have "extractReference s = JNull" using None by (simp add: extractReference_def)
  ultimately show ?thesis by blast
next
  case (Some m)
  then have "s \<noteq> []" by auto
  with Some have "extractReference s = JStr m" by (simp add: extractReference_def)
  with first_ref_Some [OF Some] show ?thesis unfolding occ_False by blast
qed

text \<open>
  C1, as the code has it. When \<^verbatim>\<open>REFERENCENUM\<close> is truthy (for a string: not empty) the
  normalised reference is that value. Otherwise it is the leftmost reference code in the
  plain-text description that stands between word boundaries, and null when the
  description holds no such code.
\<close>

theorem reference_derivation:
  "normalizeOutage rt p = Inr x \<Longrightarrow>
     (truthy (field p ''REFERENCENUM'') \<longrightarrow> reference x = field p ''REFERENCENUM'')
   \<and> (\<not> truthy (field p ''REFERENCENUM'') \<longrightarrow>
        (\<exists>a m b. description x = a @ m @ b \<and> ref_occurrence a m b \<and> reference x = JStr m \<and>
           (\<forall>a' m' b'. description x = a' @ m' @ b' \<and> ref_occurrence a' m' b'
              \<longrightarrow> length a \<le> length a'))
        \<or> (reference x = JNull \<and> \<not> (\<exists>a m b. description x = a @ m @ b \<and> ref_occurrence a m b)))"
proof -
  assume n: "normalizeOutage rt p = Inr x"
  then obtain plain where x: "reference x = js_or (field p ''REFERENCENUM'') (extractReference plain)"
      "description x = plain"
    by (auto simp: normalizeOutage_def Let_def split: sum.splits)
  show ?thesis
  proof (cases "truthy (field p ''REFERENCENUM'')")
    case True
    then show ?thesis using x by (simp add: js_or_def)
  next
    case False
    then have "reference x = extractReference (description x)" using x by (simp add: js_or_def)
    with extractReference_cases [of "description x"] False show ?thesis by simp
  qed
qed

text \<open>The theorem on a description with two codes and no explicit reference: the
  leftmost is taken.\<close>

theorem reference_derivation_witness:
  "map_sum id reference
     (normalizeOutage sample_runtime
        [''DESCRIPTION'' \<mapsto> JStr ''Burst main MAY00102991, see ABC12345678'']) =
     Inr (JStr ''MAY00102991'')
   \<and> (\<exists>a b. ''Burst main MAY00102991, see ABC12345678'' = a @ ''MAY00102991'' @ b
          \<and> ref_occurrence a ''MAY00102991'' b)"
proof -
  have run: "normalizeOutage sample_runtime
        [''DESCRIPTION'' \<mapsto> JStr ''Burst main MAY00102991, see ABC12345678''] =
      Inr \<lparr> objectid = JUndefined, globalid = JUndefined, title = JStr [], status = JStr [],
            location = JStr [], county = JStr [], startdate_epoch = JNull,
            enddate_epoch = JNull, startdate_human = None, enddate_human = None,
            reference = JStr ''MAY00102991'',
            description = ''Burst main MAY00102991, see ABC12345678'' \<rparr>"
    by code_simp
  have absent: "\<not> truthy (field [''DESCRIPTION'' \<mapsto> JStr ''Burst main MAY00102991, see ABC12345678'']
      ''REFERENCENUM'')"
    by (simp add: field_def)
  from reference_derivation [OF run] absent
  have "\<exists>a b. ''Burst main MAY00102991, see ABC12345678'' = a @ ''MAY00102991'' @ b
          \<and> ref_occurrence a ''MAY00102991'' b"
    by auto
  then show ?thesis by (simp add: run)
qed

text \<open>
  Against C1 as the specification states it: in \<^verbatim>\<open>Ref XABC12345678 burst main\<close> the
  pattern \<^verbatim>\<open>[A-Z]{3}[0-9]{8}\<close> matches \<^verbatim>\<open>ABC12345678\<close>, but the code is preceded by a
  letter, the expression of the source (with \<^verbatim>\<open>\b\<close> on both sides) does not match, and
  the reference is null.
\<close>

theorem reference_needs_word_boundary:
  "map_sum id reference
     (normalizeOutage sample_runtime
        [''DESCRIPTION'' \<mapsto> JStr ''Ref XABC12345678 burst main'']) = Inr JNull
   \<and> map_sum id (spec_first_reference \<circ> description)
     (normalizeOutage sample_runtime
        [''DESCRIPTION'' \<mapsto> JStr ''Ref XABC12345678 burst main'']) =
       Inr (Some ''ABC12345678'')"
  by code_simp

subsection \<open>normalizeOutage\<close>

text \<open>
  C3, as the code has it. On a raw record with none of the ten fields,
  \<^verbatim>\<open>normalizeOutage\<close> returns the outage whose title, status, location, county and
  description are the empty string, whose epoch, human-readable and reference fields are
  null, and whose two identifiers \<^verbatim>\<open>objectid\<close> and \<^verbatim>\<open>globalid\<close> are passed through
  as they are read, that is undefined.
\<close>

theorem missing_fields_defaults:
  "\<forall>k \<in> {''OBJECTID'', ''GLOBALID'', ''TITLE'', ''STATUS'', ''LOCATION'', ''COUNTY'',
       ''STARTDATE'', ''ENDDATE'', ''REFERENCENUM'', ''DESCRIPTION''}. p k = None \<Longrightarrow>
   normalizeOutage rt p =
     Inr \<lparr> objectid = JUndefined, globalid = JUndefined, title = JStr [], status = JStr [],
           location = JStr [], county = JStr [], startdate_epoch = JNull, enddate_epoch = JNull,
           startdate_human = None, enddate_human = None, reference = JNull, description = [] \<rparr>"
  by (simp add: normalizeOutage_def field_def js_or_def formatDate_def extractReference_def)

text \<open>The theorem on the empty record.\<close>

theorem missing_fields_defaults_witness:
  "normalizeOutage sample_runtime Map.empty =
     Inr \<lparr> objectid = JUndefined, globalid = JUndefined, title = JStr [], status = JStr [],
           location = JStr [], county = JStr [], startdate_epoch = JNull, enddate_epoch = JNull,
           startdate_human = None, enddate_human = None, reference = JNull, description = [] \<rparr>"
  using missing_fields_defaults [of Map.empty sample_runtime] by simp

text \<open>Against C3 as the specification states it: on the empty record \<^verbatim>\<open>globalid\<close> is
  not the empty string.\<close>

theorem globalid_not_defaulted:
  "map_sum id globalid (normalizeOutage sample_runtime Map.empty) \<noteq> Inr (JStr [])"
  by (simp add: normalizeOutage_def field_def js_or_def formatDate_def extractReference_def)

text \<open>
  C2. On a raw record whose \<^verbatim>\<open>STARTDATE\<close> and \<^verbatim>\<open>ENDDATE\<close> are the number 0,
  \<^verbatim>\<open>normalizeOutage\<close> renders both human-readable fields from the instant 0, yet
  both epoch fields come out as null: \<^verbatim>\<open>props.STARTDATE || null\<close> does not keep the
  zero that \<^verbatim>\<open>formatDate\<close> accepts through its test \<^verbatim>\<open>epoch !== 0\<close>.
\<close>

theorem epoch_zero_not_preserved:
  "map_sum id (\<lambda>x. (startdate_epoch x, startdate_human x, enddate_epoch x, enddate_human x))
     (normalizeOutage rt [''STARTDATE'' \<mapsto> JNum 0, ''ENDDATE'' \<mapsto> JNum 0]) =
   Inr (JNull, Some (toLocaleString rt 0), JNull, Some (toLocaleString rt 0))"
  by (simp add: normalizeOutage_def field_def js_or_def formatDate_def timeClip_def
      extractReference_def)

lemma to_string_raises:
  "(\<exists>e. to_string rt v = Inl e) \<longleftrightarrow> unconvertible v"
  "(\<exists>e. join_elements rt vs = Inl e) \<longleftrightarrow> (\<exists>v \<in> set vs. unconvertible v)"
proof (induction rt v and rt vs rule: to_string_join_elements.induct)
  case (9 rt v vs)
  show ?case
  proof (cases "v = JUndefined \<or> v = JNull")
    case True
    then have nv: "\<not> unconvertible v" by auto
    show ?thesis
    proof (cases "vs = []")
      case True
      then show ?thesis using \<open>v = JUndefined \<or> v = JNull\<close> nv by auto
    next
      case False
      then show ?thesis using \<open>v = JUndefined \<or> v = JNull\<close> nv "9.IH"(2)
        by (auto split: sum.splits)
    qed
  next
    case False
    show ?thesis
    proof (cases "to_string rt v")
      case (Inl e)
      then have "unconvertible v" using "9.IH"(1) [OF False] by blast
      then show ?thesis using Inl False by auto
    next
      case (Inr s)
      then have nv: "\<not> unconvertible v" using "9.IH"(1) [OF False] by auto
      show ?thesis
      proof (cases "vs = []")
        case True
        then show ?thesis using Inr False nv by auto
      next
        case vs: False
        then show ?thesis using Inr False nv "9.IH"(2)
          by (auto split: sum.splits)
      qed
    qed
  qed
qed auto

lemma formatDate_raises: "(\<exists>e. formatDate rt v = Inl e) \<longleftrightarrow> unconvertible v"
proof (cases v)
  case (JArr vs)
  then show ?thesis
    using to_string_raises(1) [of rt v] by (auto simp: formatDate_def split: sum.splits option.splits)
next
  case (JObj kvs)
  then show ?thesis
    using to_string_raises(1) [of rt v] by (auto simp: formatDate_def split: sum.splits option.splits)
qed (auto simp: formatDate_def split: option.splits)

lemma stripHtml_returns:
  "(\<exists>r. stripHtml v = Inr r) \<longleftrightarrow> (\<not> truthy v \<or> (\<exists>s. v = JStr s))"
  by (cases v) auto

text \<open>
  C5, as the code has it. \<^verbatim>\<open>normalizeOutage\<close> returns an outage exactly on the raw
  records whose \<^verbatim>\<open>DESCRIPTION\<close> is missing, falsy or a string, and whose \<^verbatim>\<open>STARTDATE\<close>
  and \<^verbatim>\<open>ENDDATE\<close> are values that \<^verbatim>\<open>new Date\<close> can convert (neither an object with an
  own property \<^verbatim>\<open>toString\<close> nor an array holding one), whatever the other fields hold;
  on every other record it raises.
\<close>

theorem normalize_total:
  "(\<exists>x. normalizeOutage rt p = Inr x) \<longleftrightarrow>
     ((\<not> truthy (field p ''DESCRIPTION'') \<or> (\<exists>s. field p ''DESCRIPTION'' = JStr s))
      \<and> \<not> unconvertible (field p ''STARTDATE'')
      \<and> \<not> unconvertible (field p ''ENDDATE''))"
proof -
  have d: "(\<exists>r. stripHtml (js_or (field p ''DESCRIPTION'') (JStr [])) = Inr r) \<longleftrightarrow>
      (\<not> truthy (field p ''DESCRIPTION'') \<or> (\<exists>s. field p ''DESCRIPTION'' = JStr s))"
    unfolding stripHtml_returns by (auto simp: js_or_def)
  have s: "(\<exists>h. formatDate rt (field p ''STARTDATE'') = Inr h) \<longleftrightarrow>
      \<not> unconvertible (field p ''STARTDATE'')"
    using formatDate_raises [of rt "field p ''STARTDATE''"]
    by (cases "formatDate rt (field p ''STARTDATE'')") auto
  have e: "(\<exists>h. formatDate rt (field p ''ENDDATE'') = Inr h) \<longleftrightarrow>
      \<not> unconvertible (field p ''ENDDATE'')"
    using formatDate_raises [of rt "field p ''ENDDATE''"]
    by (cases "formatDate rt (field p ''ENDDATE'')") auto
  have "(\<exists>x. normalizeOutage rt p = Inr x) \<longleftrightarrow>
      ((\<exists>r. stripHtml (js_or (field p ''DESCRIPTION'') (JStr [])) = Inr r)
       \<and> (\<exists>h. formatDate rt (field p ''STARTDATE'') = Inr h)
       \<and> (\<exists>h. formatDate rt (field p ''ENDDATE'') = Inr h))"
    by (auto simp: normalizeOutage_def Let_def split: sum.splits)
  then show ?thesis unfolding d s e .
qed

text \<open>The theorem on a record with a description and an array as start date.\<close>

theorem normalize_total_witness:
  "(\<exists>s. field [''DESCRIPTION'' \<mapsto> JStr ''a<br>b'', ''STARTDATE'' \<mapsto> JArr [JNum 5]]
           ''DESCRIPTION'' = JStr s)
   \<and> (\<exists>x. normalizeOutage sample_runtime
               [''DESCRIPTION'' \<mapsto> JStr ''a<br>b'', ''STARTDATE'' \<mapsto> JArr [JNum 5]] = Inr x)"
  using normalize_total
    [of sample_runtime "[''DESCRIPTION'' \<mapsto> JStr ''a<br>b'', ''STARTDATE'' \<mapsto> JArr [JNum 5]]"]
  by (simp add: field_def)

text \<open>
  Against C5 as the specification states it: a \<^verbatim>\<open>DESCRIPTION\<close> that is the number 5 is
  truthy and has no method \<^verbatim>\<open>replace\<close>, so \<^verbatim>\<open>stripHtml\<close> raises a TypeError; a
  \<^verbatim>\<open>STARTDATE\<close> that is the object \<^verbatim>\<open>{"toString": 1}\<close> cannot be converted to a
  primitive, so \<^verbatim>\<open>new Date\<close> raises a TypeError. (The messages of the errors are
  shortened.)
\<close>

theorem normalize_raises_on_description_and_date:
  "normalizeOutage sample_runtime [''DESCRIPTION'' \<mapsto> JNum 5] =
     Inl (TypeError ''html.replace is not a function'')
   \<and> normalizeOutage sample_runtime [''STARTDATE'' \<mapsto> JObj [(''toString'', JNum 1)]] =
     Inl (TypeError ''Cannot convert object to primitive value'')"
  by (simp add: normalizeOutage_def field_def js_or_def formatDate_def has_key_def
      extractReference_def)

subsection \<open>The filters\<close>

lemma location_param_None [simp]: "location_param None = []"
  by (simp add: location_param_def or_empty_def toLowerCase_def)

lemma refnum_param_None [simp]: "refnum_param None = None"
  by (simp add: refnum_param_def or_empty_def)

lemma filter_raising_total:
  "\<forall>x \<in> set xs. g x = Inr (P x) \<Longrightarrow> filter_raising g xs = Inr (filter P xs)"
  by (induction xs) auto

lemma filter_raising_subseq: "filter_raising g xs = Inr ys \<Longrightarrow> subseq ys xs"
proof (induction xs arbitrary: ys)
  case Nil
  then show ?case by simp
next
  case (Cons x xs)
  then show ?case
    by (auto split: sum.splits if_splits)
qed

lemma by_refnum_subseq: "subseq (by_refnum rn xs) xs"
  by (simp add: by_refnum_def split: option.splits)

lemma by_location_subseq: "by_location lf xs = Inr ys \<Longrightarrow> subseq ys xs"
  by (auto simp: by_location_def dest: filter_raising_subseq split: if_splits)

lemma apply_filters_subseq: "apply_filters rn lf xs = Inr ys \<Longrightarrow> subseq ys xs"
  unfolding apply_filters_def
  using by_location_subseq by_refnum_subseq subseq_order.order_trans by blast

lemma by_refnum_filter:
  "by_refnum (refnum_param r) xs =
     filter (\<lambda>x. trim (or_empty r) = [] \<or> reference x = JStr (trim (or_empty r))) xs"
  by (simp add: by_refnum_def refnum_param_def Let_def)

lemma lower_of_text:
  "\<not> truthy v \<or> (\<exists>s. v = JStr s) \<Longrightarrow> lower_of v = Inr (toLowerCase (string_of v))"
  by (cases v) (auto simp: lower_of_def js_or_def toLowerCase_def)

lemma lower_of_raises:
  "truthy v \<Longrightarrow> \<forall>s. v \<noteq> JStr s \<Longrightarrow> \<exists>e. lower_of v = Inl e"
  by (cases v) (auto simp: lower_of_def js_or_def)

lemma location_matches_text:
  "\<not> truthy (location x) \<or> (\<exists>s. location x = JStr s) \<Longrightarrow>
     location_matches lf x =
       Inr ((\<exists>a b. toLowerCase (string_of (location x)) = a @ lf @ b)
            \<or> (\<exists>a b. toLowerCase (description x) = a @ lf @ b))"
  using lower_of_text [of "location x"] lower_of_text [of "JStr (description x)"]
  by (simp add: location_matches_def js_includes_iff)

lemma by_location_text:
  assumes "\<forall>x \<in> set xs. \<not> truthy (location x) \<or> (\<exists>s. location x = JStr s)"
  shows "by_location lf xs =
     Inr (if lf = [] then xs
          else filter (\<lambda>x. (\<exists>a b. toLowerCase (string_of (location x)) = a @ lf @ b)
                          \<or> (\<exists>a b. toLowerCase (description x) = a @ lf @ b)) xs)"
proof (cases "lf = []")
  case True
  then show ?thesis by (simp add: by_location_def)
next
  case False
  have "\<forall>x \<in> set xs. location_matches lf x =
      Inr ((\<exists>a b. toLowerCase (string_of (location x)) = a @ lf @ b)
           \<or> (\<exists>a b. toLowerCase (description x) = a @ lf @ b))"
    using assms location_matches_text by blast
  from filter_raising_total [OF this] show ?thesis
    using False by (simp add: by_location_def)
qed

lemma filter_raising_raises:
  "\<exists>x \<in> set xs. \<exists>e. g x = Inl e \<Longrightarrow> \<exists>e. filter_raising g xs = Inl e"
proof (induction xs)
  case (Cons a xs)
  show ?case
  proof (cases "g a")
    case (Inl e)
    then show ?thesis by simp
  next
    case (Inr b)
    with Cons.prems have "\<exists>x \<in> set xs. \<exists>e. g x = Inl e" by auto
    from Cons.IH [OF this] show ?thesis using Inr by (auto split: sum.splits)
  qed
qed simp

lemma by_location_raises:
  assumes "lf \<noteq> []" and "\<exists>x \<in> set xs. truthy (location x) \<and> (\<forall>s. location x \<noteq> JStr s)"
  shows "\<exists>e. by_location lf xs = Inl e"
proof -
  from assms(2) obtain x where x: "x \<in> set xs" "truthy (location x)" "\<forall>s. location x \<noteq> JStr s"
    by blast
  from lower_of_raises [OF x(2,3)] have "\<exists>e. location_matches lf x = Inl e"
    by (auto simp: location_matches_def)
  with x(1) have "\<exists>e. filter_raising (location_matches lf) xs = Inl e"
    by (intro filter_raising_raises) blast
  then show ?thesis using assms(1) by (simp add: by_location_def)
qed

text \<open>
  C6. The refnum filter trims the refnum parameter; when nothing is left it returns the
  list unchanged, and otherwise it keeps exactly the outages whose reference is the string
  equal, character for character, to the trimmed refnum. With no location parameter this
  is the result of the whole filter.
\<close>

theorem refnum_filter_exact:
  "by_refnum (refnum_param (Some r)) outages =
     (if trim r = [] then outages
      else filter (\<lambda>x. reference x = JStr (trim r)) outages)
   \<and> apply_filters (refnum_param (Some r)) (location_param None) outages =
     Inr (by_refnum (refnum_param (Some r)) outages)"
  by (simp add: apply_filters_def by_location_def by_refnum_def refnum_param_def or_empty_def)

lemma trim_sample: "trim '' MAY00102991  '' = ''MAY00102991''"
  by code_simp

text \<open>The theorem on the sample outages: the padded refnum selects the first outage and
  not the one whose reference differs in case.\<close>

theorem refnum_filter_exact_witness:
  "apply_filters (refnum_param (Some '' MAY00102991  '')) (location_param None) sample_outages =
     Inr [sample_outage (JStr ''MAY00102991'') ''Ballina Co. Mayo'' ''Works'']"
  using refnum_filter_exact [of "'' MAY00102991  ''" sample_outages]
  by (simp add: trim_sample sample_outages_def sample_outage_def)

text \<open>
  C7, as the code has it. With a location parameter and no refnum, the filter trims and
  lowercases the parameter. On outages whose location is a string (or a falsy value,
  read as the empty string) it returns the list unchanged when nothing is left of the
  parameter, and otherwise it keeps exactly the outages whose lowercased location, or
  whose lowercased description, contains the parameter as a substring. On a list that
  holds an outage whose location is truthy and not a string, a parameter that is not
  blank makes the filter raise.
\<close>

theorem location_filter_substring:
  "((\<forall>x \<in> set outages. \<not> truthy (location x) \<or> (\<exists>s. location x = JStr s)) \<longrightarrow>
      apply_filters (refnum_param None) (location_param (Some l)) outages =
        Inr (if trim l = [] then outages
             else filter (\<lambda>x. (\<exists>a b. toLowerCase (string_of (location x)) =
                                       a @ toLowerCase (trim l) @ b)
                          \<or> (\<exists>a b. toLowerCase (description x) =
                                       a @ toLowerCase (trim l) @ b))
                    outages))
   \<and> (trim l \<noteq> [] \<and> (\<exists>x \<in> set outages. truthy (location x) \<and> (\<forall>s. location x \<noteq> JStr s)) \<longrightarrow>
        (\<exists>e. apply_filters (refnum_param None) (location_param (Some l)) outages = Inl e))"
proof (intro conjI impI)
  assume "\<forall>x \<in> set outages. \<not> truthy (location x) \<or> (\<exists>s. location x = JStr s)"
  from by_location_text [OF this, of "location_param (Some l)"]
  show "apply_filters (refnum_param None) (location_param (Some l)) outages =
        Inr (if trim l = [] then outages
             else filter (\<lambda>x. (\<exists>a b. toLowerCase (string_of (location x)) =
                                       a @ toLowerCase (trim l) @ b)
                          \<or> (\<exists>a b. toLowerCase (description x) =
                                       a @ toLowerCase (trim l) @ b))
                    outages)"
    by (simp add: apply_filters_def by_refnum_def location_param_def or_empty_def)
next
  assume h: "trim l \<noteq> [] \<and> (\<exists>x \<in> set outages. truthy (location x) \<and> (\<forall>s. location x \<noteq> JStr s))"
  then have "location_param (Some l) \<noteq> []" by (simp add: location_param_def or_empty_def)
  from by_location_raises [OF this] h
  show "\<exists>e. apply_filters (refnum_param None) (location_param (Some l)) outages = Inl e"
    by (simp add: apply_filters_def by_refnum_def)
qed

text \<open>The theorem on the sample outages: the first matches by its location, the second
  by its description only.\<close>

theorem location_filter_substring_witness:
  "apply_filters (refnum_param None) (location_param (Some '' BALLINA'')) sample_outages =
     Inr [sample_outage (JStr ''MAY00102991'') ''Ballina Co. Mayo'' ''Works'',
          sample_outage (JStr ''may00102991'') ''Westport'' ''Repairs near Ballina'']
   \<and> filter (\<lambda>x. (\<exists>a b. toLowerCase (string_of (location x)) = a @ ''ballina'' @ b)
                 \<or> (\<exists>a b. toLowerCase (description x) = a @ ''ballina'' @ b)) sample_outages =
     [sample_outage (JStr ''MAY00102991'') ''Ballina Co. Mayo'' ''Works'',
      sample_outage (JStr ''may00102991'') ''Westport'' ''Repairs near Ballina'']"
proof -
  have typed: "\<forall>x \<in> set sample_outages. \<not> truthy (location x) \<or> (\<exists>s. location x = JStr s)"
    by (simp add: sample_outages_def sample_outage_def)
  have run: "apply_filters (refnum_param None) (location_param (Some '' BALLINA''))
      sample_outages =
     Inr [sample_outage (JStr ''MAY00102991'') ''Ballina Co. Mayo'' ''Works'',
          sample_outage (JStr ''may00102991'') ''Westport'' ''Repairs near Ballina'']"
    by code_simp
  have tr: "trim '' BALLINA'' = ''BALLINA''"
    by code_simp
  have lo: "toLowerCase ''BALLINA'' = ''ballina''"
    by code_simp
  from location_filter_substring [of sample_outages "'' BALLINA''"] typed run
  show ?thesis by (simp add: tr lo)
qed

text \<open>
  Against C7 as the specification states it: for the raw record whose \<^verbatim>\<open>LOCATION\<close> is
  the number 5, \<^verbatim>\<open>normalizeOutage\<close> returns an outage whose location is that number; it
  has no method \<^verbatim>\<open>toLowerCase\<close>, and on the list that holds this outage the location
  filter raises a TypeError and keeps no outage.
\<close>

theorem location_filter_raises_on_number:
  "normalizeOutage sample_runtime [''LOCATION'' \<mapsto> JNum 5, ''REFERENCENUM'' \<mapsto> JStr ''MAY00102991'']
     = Inr numeric_location_outage
   \<and> apply_filters (refnum_param None) (location_param (Some ''ballina'')) [numeric_location_outage]
     = Inl (TypeError ''toLowerCase is not a function'')"
  by code_simp

text \<open>
  C8, as the code has it. With neither parameter the filter returns its input unchanged.
  On outages whose location is a string (or a falsy value), the two filters together keep
  exactly the outages that pass both (a blank parameter passes every outage), in the
  order of the input. Whatever the parameters, a list the filter returns is a
  subsequence of its input.
\<close>

theorem filters_compose:
  "apply_filters (refnum_param None) (location_param None) outages = Inr outages
   \<and> ((\<forall>x \<in> set outages. \<not> truthy (location x) \<or> (\<exists>s. location x = JStr s)) \<longrightarrow>
        apply_filters (refnum_param r) (location_param l) outages =
          Inr (filter (\<lambda>x. (trim (or_empty r) = [] \<or> reference x = JStr (trim (or_empty r)))
                         \<and> (trim (or_empty l) = []
                            \<or> (\<exists>a b. toLowerCase (string_of (location x)) =
                                       a @ toLowerCase (trim (or_empty l)) @ b)
                            \<or> (\<exists>a b. toLowerCase (description x) =
                                       a @ toLowerCase (trim (or_empty l)) @ b)))
                 outages))
   \<and> (\<forall>kept. apply_filters rn lf outages = Inr kept \<longrightarrow> subseq kept outages)"
proof (intro conjI impI allI)
  show "apply_filters (refnum_param None) (location_param None) outages = Inr outages"
    by (simp add: apply_filters_def by_location_def by_refnum_def)
next
  assume typed: "\<forall>x \<in> set outages. \<not> truthy (location x) \<or> (\<exists>s. location x = JStr s)"
  then have "\<forall>x \<in> set (by_refnum (refnum_param r) outages).
      \<not> truthy (location x) \<or> (\<exists>s. location x = JStr s)"
    by (simp add: by_refnum_filter)
  from by_location_text [OF this, of "location_param l"]
  show "apply_filters (refnum_param r) (location_param l) outages =
          Inr (filter (\<lambda>x. (trim (or_empty r) = [] \<or> reference x = JStr (trim (or_empty r)))
                         \<and> (trim (or_empty l) = []
                            \<or> (\<exists>a b. toLowerCase (string_of (location x)) =
                                       a @ toLowerCase (trim (or_empty l)) @ b)
                            \<or> (\<exists>a b. toLowerCase (description x) =
                                       a @ toLowerCase (trim (or_empty l)) @ b)))
                 outages)"
    by (auto simp: apply_filters_def by_refnum_filter location_param_def intro!: filter_cong)
next
  fix kept assume "apply_filters rn lf outages = Inr kept"
  then show "subseq kept outages" by (rule apply_filters_subseq)
qed

text \<open>The theorem on the sample outages, with both parameters.\<close>

theorem filters_compose_witness:
  "apply_filters (refnum_param None) (location_param None) sample_outages = Inr sample_outages
   \<and> apply_filters (refnum_param (Some ''may00102991'')) (location_param (Some ''Ballina''))
        sample_outages =
       Inr [sample_outage (JStr ''may00102991'') ''Westport'' ''Repairs near Ballina'']
   \<and> subseq [sample_outage (JStr ''may00102991'') ''Westport'' ''Repairs near Ballina'']
        sample_outages"
proof -
  have run: "apply_filters (refnum_param (Some ''may00102991'')) (location_param (Some ''Ballina''))
        sample_outages =
       Inr [sample_outage (JStr ''may00102991'') ''Westport'' ''Repairs near Ballina'']"
    by code_simp
  from filters_compose
    [where outages = sample_outages and r = "Some ''may00102991''" and l = "Some ''Ballina''"
       and rn = "refnum_param (Some ''may00102991'')" and lf = "location_param (Some ''Ballina'')"]
    run
  show ?thesis by blast
qed

text \<open>
  Against C8 as the specification states it: with both parameters, on a list of two
  outages that pass the refnum filter, the first with the number 5 as location, the
  filters return no list at all: the location filter raises a TypeError.
\<close>

theorem filters_raise_on_number:
  "apply_filters (refnum_param (Some ''MAY00102991'')) (location_param (Some ''ballina''))
     [numeric_location_outage, sample_outage (JStr ''MAY00102991'') ''Ballina Co. Mayo'' ''Works'']
     = Inl (TypeError ''toLowerCase is not a function'')"
  by code_simp

subsection \<open>The route\<close>








text \<open>
  C10. In every response of status 200 the body is the success body, its \<^verbatim>\<open>count\<close> is
  the length of its \<^verbatim>\<open>outages\<close>, and when the request has a location parameter that is
  not blank, \<^verbatim>\<open>locationFilter\<close> is that parameter trimmed and then lowercased.
\<close>

theorem success_body_echo:
  "handler rt axios_get q = (Inr r, calls) \<Longrightarrow> http_status r = 200 \<Longrightarrow>
     \<exists>b. json r = Outages b \<and> res_count b = length (res_outages b) \<and>
         (\<forall>l. q_location q = JStr l \<and> trim l \<noteq> [] \<longrightarrow>
              res_locationFilter b = Some (toLowerCase (trim l)))"
  by (auto simp: handler_def Let_def query_location_def js_or_def location_param_def or_empty_def
      toLowerCase_def split: if_splits sum.splits option.splits jsval.splits)

text \<open>The theorem on a request for Mayo with the location \<^verbatim>\<open>" BALLINA "\<close>.\<close>

theorem success_body_echo_witness:
  "map_sum id http_status (fst (handler sample_runtime sample_upstream
       \<lparr> q_county = JStr ''Mayo'', q_refnum = JUndefined, q_location = JStr '' BALLINA '' \<rparr>))
     = Inr 200
   \<and> (\<exists>r b. fst (handler sample_runtime sample_upstream
              \<lparr> q_county = JStr ''Mayo'', q_refnum = JUndefined, q_location = JStr '' BALLINA '' \<rparr>)
              = Inr r
          \<and> json r = Outages b
          \<and> res_count b = length (res_outages b)
          \<and> res_locationFilter b = Some ''ballina'')"
proof -
  have ev: "map_sum id http_status (fst (handler sample_runtime sample_upstream
       \<lparr> q_county = JStr ''Mayo'', q_refnum = JUndefined, q_location = JStr '' BALLINA '' \<rparr>))
     = Inr 200"
    by code_simp
  have tr: "trim '' BALLINA '' = ''BALLINA''"
    by code_simp
  have lo: "toLowerCase ''BALLINA'' = ''ballina''"
    by code_simp
  obtain res calls where oc: "handler sample_runtime sample_upstream
       \<lparr> q_county = JStr ''Mayo'', q_refnum = JUndefined, q_location = JStr '' BALLINA '' \<rparr>
       = (res, calls)"
    by (cases "handler sample_runtime sample_upstream
       \<lparr> q_county = JStr ''Mayo'', q_refnum = JUndefined, q_location = JStr '' BALLINA '' \<rparr>")
  with ev obtain r where r: "res = Inr r" "http_status r = 200" by (cases res) auto
  from success_body_echo [OF oc [unfolded r(1)] r(2)] obtain b where b: "json r = Outages b"
    "res_count b = length (res_outages b)"
    "\<forall>l. q_location \<lparr> q_county = JStr ''Mayo'', q_refnum = JUndefined,
                       q_location = JStr '' BALLINA '' \<rparr> = JStr l \<and> trim l \<noteq> []
          \<longrightarrow> res_locationFilter b = Some (toLowerCase (trim l))"
    by blast
  from b(3) have "res_locationFilter b = Some ''ballina''"
    by (simp add: tr lo)
  with b(1,2) oc r ev show ?thesis by auto
qed

end
